theory Spec2Isabelle
  imports Main
begin

section \<open>Strings and paths as the launcher uses them\<close>

text \<open>
  The supervisor of \<^verbatim>\<open>server_manager.py\<close> is embedded as functions on an explicit
  world: the manager's registry and handles, the operating-system side of each child
  process, the file system, a clock and the journal of everything the code does to the
  outside (log records, callback invocations, writes to a child's standard input, kills,
  sleeps). Python strings are HOL strings; the newline is \<open>CHR 0x0A\<close>.
\<close>

definition nl :: char where
  "nl = CHR 0x0A"

text \<open>\<^verbatim>\<open>str.lower()\<close>, on the ASCII letters.\<close>

definition lower_char :: "char \<Rightarrow> char" where
  "lower_char c =
     (let n = (of_char c :: nat) in if 65 \<le> n \<and> n \<le> 90 then char_of (n + 32) else c)"

definition lower :: "string \<Rightarrow> string" where
  "lower s = map lower_char s"

text \<open>\<^verbatim>\<open>s.startswith(pre)\<close>.\<close>

definition startswith :: "string \<Rightarrow> string \<Rightarrow> bool" where
  "startswith s pre = (take (length pre) s = pre)"

text \<open>\<^verbatim>\<open>s.replace(" ", "_")\<close>: every space becomes an underscore.\<close>

definition replace_spaces :: "string \<Rightarrow> string" where
  "replace_spaces s = map (\<lambda>c. if c = CHR '' '' then CHR ''_'' else c) s"

text \<open>\<^verbatim>\<open>"\n".join(lines)\<close>.\<close>

fun join_lines :: "string list \<Rightarrow> string" where
  "join_lines [] = []"
| "join_lines [l] = l"
| "join_lines (l # m # ls) = l @ nl # join_lines (m # ls)"

text \<open>\<^verbatim>\<open>line.rstrip("\n")\<close>: every trailing newline is removed.\<close>

definition rstrip_nl :: "string \<Rightarrow> string" where
  "rstrip_nl s = rev (dropWhile (\<lambda>c. c = nl) (rev s))"

text \<open>\<^verbatim>\<open>str(n)\<close> for an integer, as the f-string of the exit marker formats it.\<close>

fun str_nat :: "nat \<Rightarrow> string" where
  "str_nat n =
     (if n < 10 then [char_of (48 + n)] else str_nat (n div 10) @ [char_of (48 + n mod 10)])"

declare str_nat.simps [simp del]

definition str_int :: "int \<Rightarrow> string" where
  "str_int i = (if i < 0 then CHR ''-'' # str_nat (nat (- i)) else str_nat (nat i))"

text \<open>
  A \<^verbatim>\<open>pathlib.Path\<close>, already parsed: the directory part and the final component.
  \<^verbatim>\<open>suffix\<close> and \<^verbatim>\<open>with_suffix\<close> only look at the final component.
\<close>

datatype path = Path (parent: string) (path_name: string)

text \<open>\<^verbatim>\<open>str.rfind(c)\<close>: the last index of the character, \<open>-1\<close> when it is absent.\<close>

fun find_char :: "char \<Rightarrow> string \<Rightarrow> nat option" where
  "find_char c [] = None"
| "find_char c (x # xs) =
     (if x = c then Some 0 else map_option Suc (find_char c xs))"

definition rfind :: "string \<Rightarrow> char \<Rightarrow> int" where
  "rfind s c =
     (case find_char c (rev s) of
        None \<Rightarrow> - 1
      | Some j \<Rightarrow> int (length s) - 1 - int j)"

text \<open>
  \<^verbatim>\<open>PurePath.suffix\<close>:
  \<^verbatim>\<open>i = name.rfind('.'); return name[i:] if 0 < i < len(name) - 1 else ''\<close>.
\<close>

definition suffix :: "path \<Rightarrow> string" where
  "suffix p =
     (let name = path_name p; i = rfind name CHR ''.''
      in if 0 < i \<and> i < int (length name) - 1 then drop (nat i) name else [])"

text \<open>
  \<^verbatim>\<open>PurePath.with_suffix\<close>, for a well-formed new suffix. The library raises
  ValueError on an empty final component; the resolver calls it only on a path whose
  suffix is not empty, which has a final component.
\<close>

definition with_suffix :: "path \<Rightarrow> string \<Rightarrow> path" where
  "with_suffix p sfx =
     (let name = path_name p; old_suffix = suffix p
      in Path (parent p)
           (if old_suffix = [] then name @ sfx
            else take (length name - length old_suffix) name @ sfx))"

section \<open>The world\<close>

type_synonym ref = nat

datatype level = DEBUG | INFO | WARNING | ERROR

datatype label = OUT | ERR

datatype error = ScriptNotFound path | SpawnError | CallbackError

text \<open>An argument of the spawned command line: a literal, or \<^verbatim>\<open>str(script_path)\<close>.\<close>

datatype arg = Lit string | PathArg path

text \<open>The working directory handed to \<^verbatim>\<open>Popen\<close>: the caller's, or the script's directory.\<close>

datatype cwd = Dir string | ParentOf path

datatype thread = Reader ref label | Watcher string

text \<open>
  The journal. \<open>Log\<close> carries the level and the format string of a \<^verbatim>\<open>LOGGER\<close> call
  (\<^verbatim>\<open>LOGGER.exception\<close> logs at \<open>ERROR\<close>); \<open>Output\<close> is one invocation of the
  \<^verbatim>\<open>on_output\<close> callback; \<open>StdinWrite\<close> a write to a child's standard input that
  succeeded; \<open>Kill\<close> a call of \<^verbatim>\<open>process.kill()\<close>; \<open>Sleep\<close> a
  \<^verbatim>\<open>time.sleep\<close> with its duration in milliseconds.
\<close>

datatype event =
    Log level string
  | Output string string
  | Append ref string
  | SetStopRequested ref
  | StdinWrite ref string
  | StdinFlush ref
  | Sleep nat
  | Kill ref
  | Spawn ref "arg list" bool cwd "string \<rightharpoonup> string"
  | StartThread thread
  | CloseStream ref label
  | WriteFile string string

text \<open>
  An output stream of a child: the text the child will have written by the time it closes
  the stream, and for each coming \<^verbatim>\<open>readline\<close> call whether it raises.
\<close>

record stream =
  unread :: string
  read_faults :: "bool list"

text \<open>
  The operating-system side of one child process, fixed by the environment and not by the
  supervisor: how many more non-blocking status queries find the child still running
  (\<open>None\<close>: it never exits), the status it exits with, whether \<^verbatim>\<open>kill()\<close> raises,
  whether spawning it raises, and for each coming write to its standard input whether it
  raises.
\<close>

record child =
  alive_polls :: "nat option"
  exit_status :: int
  kill_fault :: bool
  spawn_fault :: bool
  stdin_faults :: "bool list"
  stdout :: stream
  stderr :: stream

text \<open>\<^verbatim>\<open>subprocess.Popen\<close>, as far as the supervisor reads it.\<close>

record popen =
  returncode :: "int option"

text \<open>\<^verbatim>\<open>class ServerProcess\<close>.\<close>

record server_process =
  server_id :: string
  name :: string
  process :: popen
  stdout_lines :: "string list"
  stop_requested :: bool
  reader_threads :: "thread list"

text \<open>
  \<^verbatim>\<open>class ServerManager\<close> and its environment. Handles are objects shared between
  the registry and the threads that captured them, so they live in a store \<open>heap\<close>
  and the registry \<open>processes\<close> maps a server id to a reference; \<open>children r\<close> is the
  operating-system process behind handle \<open>r\<close>. The clock counts milliseconds.
\<close>

record world =
  processes :: "string \<rightharpoonup> ref"
  heap :: "ref \<Rightarrow> server_process"
  next_ref :: ref
  children :: "ref \<Rightarrow> child"
  clock :: nat
  platform_system :: string
  environ :: "string \<rightharpoonup> string"
  fs_exists :: "path \<Rightarrow> bool"
  files :: "string \<rightharpoonup> string"
  open_fault :: "string \<Rightarrow> bool"
  trace :: "event list"

text \<open>The callback \<^verbatim>\<open>on_output(server_id, line)\<close>: whether it raises on these arguments.\<close>

type_synonym callback = "string \<Rightarrow> string \<Rightarrow> bool"

definition emit :: "event \<Rightarrow> world \<Rightarrow> world" where
  "emit e w = w\<lparr>trace := trace w @ [e]\<rparr>"

definition log :: "level \<Rightarrow> string \<Rightarrow> world \<Rightarrow> world" where
  "log lv fmt w = emit (Log lv fmt) w"

section \<open>Script resolver\<close>

text \<open>\<^verbatim>\<open>ServerManager._resolve_script\<close>; \<^verbatim>\<open>FileNotFoundError\<close> is \<open>ScriptNotFound\<close>.\<close>

definition resolve_script :: "world \<Rightarrow> path \<Rightarrow> error + path" where
  "resolve_script w p =
     (if fs_exists w p then Inr p
      else
        let plat = lower (platform_system w) in
        if startswith plat ''win'' \<and> suffix p = ''.sh'' \<and> fs_exists w (with_suffix p ''.bat'')
        then Inr (with_suffix p ''.bat'')
        else if \<not> startswith plat ''win'' \<and> suffix p = ''.bat''
                \<and> fs_exists w (with_suffix p ''.sh'')
        then Inr (with_suffix p ''.sh'')
        else Inl (ScriptNotFound p))"

section \<open>The child process as the supervisor sees it\<close>

definition set_returncode :: "ref \<Rightarrow> int option \<Rightarrow> world \<Rightarrow> world" where
  "set_returncode r rc w =
     w\<lparr>heap := (heap w)(r := (heap w r)\<lparr>process := (process (heap w r))\<lparr>returncode := rc\<rparr>\<rparr>)\<rparr>"

text \<open>
  \<^verbatim>\<open>Popen.poll()\<close>: the cached \<^verbatim>\<open>returncode\<close> once an exit has been seen,
  otherwise one non-blocking status query, whose answer the environment decides.
\<close>

definition poll :: "ref \<Rightarrow> world \<Rightarrow> int option \<times> world" where
  "poll r w =
     (case returncode (process (heap w r)) of
        Some c \<Rightarrow> (Some c, w)
      | None \<Rightarrow>
          (case alive_polls (children w r) of
             None \<Rightarrow> (None, w)
           | Some 0 \<Rightarrow>
               (Some (exit_status (children w r)),
                set_returncode r (Some (exit_status (children w r))) w)
           | Some (Suc k) \<Rightarrow>
               (None, w\<lparr>children := (children w)(r := (children w r)\<lparr>alive_polls := Some k\<rparr>)\<rparr>)))"

text \<open>
  \<^verbatim>\<open>Popen.wait()\<close>: blocks until the child has exited. \<open>None\<close> is a wait that never
  returns; otherwise the world is the one in which the wait returns.
\<close>

definition wait :: "ref \<Rightarrow> world \<Rightarrow> (int \<times> world) option" where
  "wait r w =
     (case returncode (process (heap w r)) of
        Some c \<Rightarrow> Some (c, w)
      | None \<Rightarrow>
          (case alive_polls (children w r) of
             None \<Rightarrow> None
           | Some k \<Rightarrow>
               Some (exit_status (children w r),
                     set_returncode r (Some (exit_status (children w r)))
                       (w\<lparr>children := (children w)(r := (children w r)\<lparr>alive_polls := Some 0\<rparr>)\<rparr>))))"

text \<open>
  \<^verbatim>\<open>Popen.kill()\<close>: the call is journalled; the result says whether it raised. When
  the child is then seen dead is the environment's choice, through \<open>alive_polls\<close>.
\<close>

definition kill :: "ref \<Rightarrow> world \<Rightarrow> bool \<times> world" where
  "kill r w = (kill_fault (children w r), emit (Kill r) w)"

text \<open>\<^verbatim>\<open>time.sleep\<close>, in milliseconds.\<close>

definition sleep :: "nat \<Rightarrow> world \<Rightarrow> world" where
  "sleep ms w = emit (Sleep ms) (w\<lparr>clock := clock w + ms\<rparr>)"

text \<open>
  \<^verbatim>\<open>process.stdin.write(text)\<close>: consumes the environment's next fault bit; the
  result says whether the call raised, and a write that did not raise is journalled.
\<close>

definition stdin_write :: "ref \<Rightarrow> string \<Rightarrow> world \<Rightarrow> bool \<times> world" where
  "stdin_write r text w =
     (case stdin_faults (children w r) of
        [] \<Rightarrow> (False, emit (StdinWrite r text) w)
      | f # fs \<Rightarrow>
          (let w1 = w\<lparr>children := (children w)(r := (children w r)\<lparr>stdin_faults := fs\<rparr>)\<rparr>
           in if f then (True, w1) else (False, emit (StdinWrite r text) w1)))"

section \<open>Process handle\<close>

text \<open>
  \<^verbatim>\<open>ServerProcess.send_command\<close>. The handle's process is spawned with
  \<^verbatim>\<open>stdin=PIPE\<close>, so \<^verbatim>\<open>self.process.stdin\<close> is a stream object and its truth test
  is constant; \<^verbatim>\<open>isinstance(stdin, Popen)\<close> is false for a stream, so the first
  attempt writes the text \<^verbatim>\<open>cmd + "\n"\<close>. An exception of \<^verbatim>\<open>flush()\<close> is
  swallowed: both outcomes continue alike.
\<close>

definition sp_send_command :: "ref \<Rightarrow> string \<Rightarrow> world \<Rightarrow> bool \<times> world" where
  "sp_send_command r cmd w =
     (case poll r w of
        (Some c, w1) \<Rightarrow> (False, log WARNING ''Cannot send command; process not running for %s'' w1)
      | (None, w1) \<Rightarrow>
          (case stdin_write r (cmd @ [nl]) w1 of
             (False, w2) \<Rightarrow> (True, log DEBUG ''Sent command to %s: %s'' (emit (StdinFlush r) w2))
           | (True, w2) \<Rightarrow>
               (case stdin_write r (cmd @ [nl]) w2 of
                  (False, w3) \<Rightarrow>
                    (True, log DEBUG ''Sent command to %s: %s'' (emit (StdinFlush r) w3))
                | (True, w3) \<Rightarrow> (False, log ERROR ''Failed to send command to %s'' w3))))"

text \<open>\<^verbatim>\<open>ServerProcess.collect_console\<close>.\<close>

definition collect_console :: "server_process \<Rightarrow> string" where
  "collect_console sp = join_lines (stdout_lines sp)"

section \<open>Output capture\<close>

definition stream_of :: "label \<Rightarrow> child \<Rightarrow> stream" where
  "stream_of lab c = (case lab of OUT \<Rightarrow> stdout c | ERR \<Rightarrow> stderr c)"

definition set_stream :: "label \<Rightarrow> stream \<Rightarrow> child \<Rightarrow> child" where
  "set_stream lab s c = (case lab of OUT \<Rightarrow> c\<lparr>stdout := s\<rparr> | ERR \<Rightarrow> c\<lparr>stderr := s\<rparr>)"

text \<open>
  What \<^verbatim>\<open>readline\<close> takes off a text: everything up to and including the first
  newline, or all of it when there is none; the empty string at end-of-stream.
\<close>

fun take_line :: "string \<Rightarrow> string \<times> string" where
  "take_line [] = ([], [])"
| "take_line (c # cs) =
     (if c = nl then ([c], cs) else (case take_line cs of (l, rest) \<Rightarrow> (c # l, rest)))"

text \<open>\<^verbatim>\<open>stream.readline()\<close>: \<open>Inl ()\<close> when the call raises.\<close>

definition readline :: "ref \<Rightarrow> label \<Rightarrow> world \<Rightarrow> (unit + string) \<times> world" where
  "readline r lab w =
     (let s = stream_of lab (children w r);
          put = (\<lambda>s'. w\<lparr>children := (children w)(r := set_stream lab s' (children w r))\<rparr>)
      in case read_faults s of
           True # fs \<Rightarrow> (Inl (), put (s\<lparr>read_faults := fs\<rparr>))
         | _ \<Rightarrow>
             (case take_line (unread s) of
                (l, rest) \<Rightarrow> (Inr l, put (s\<lparr>unread := rest, read_faults := tl (read_faults s)\<rparr>))))"

definition append_line :: "ref \<Rightarrow> string \<Rightarrow> world \<Rightarrow> world" where
  "append_line r text w =
     emit (Append r text)
       (w\<lparr>heap := (heap w)(r := (heap w r)\<lparr>stdout_lines := stdout_lines (heap w r) @ [text]\<rparr>)\<rparr>)"

text \<open>Calling \<^verbatim>\<open>on_output(server_id, line)\<close>: journalled; the result says whether it raised.\<close>

definition call :: "callback \<Rightarrow> string \<Rightarrow> string \<Rightarrow> world \<Rightarrow> bool \<times> world" where
  "call cb sid line w = (cb sid line, emit (Output sid line) w)"

text \<open>
  The loop of \<^verbatim>\<open>_reader\<close> inside its \<^verbatim>\<open>try\<close>: the result says whether an
  exception left the loop.
\<close>

function reader_loop :: "callback \<Rightarrow> ref \<Rightarrow> label \<Rightarrow> world \<Rightarrow> bool \<times> world" where
  "reader_loop on_output r lab w =
     (case readline r lab w of
        (Inl u, w1) \<Rightarrow> (True, w1)
      | (Inr line, w1) \<Rightarrow>
          if line = [] then (False, w1)
          else
            (let text = rstrip_nl line;
                 w2 = append_line r text w1
             in case call on_output (server_id (heap w2 r)) text w2 of
                  (True, w3) \<Rightarrow> (True, w3)
                | (False, w3) \<Rightarrow> reader_loop on_output r lab w3))"
  by pat_completeness auto

lemma stream_of_set_stream [simp]: "stream_of lab (set_stream lab s c) = s"
  by (cases lab) (simp_all add: stream_of_def set_stream_def)

lemma take_line_length: "length (fst (take_line s)) + length (snd (take_line s)) = length s"
  by (induction s) (auto split: prod.splits)

lemma take_line_shorter: "take_line s = (l, rest) \<Longrightarrow> l \<noteq> [] \<Longrightarrow> length rest < length s"
  using take_line_length [of s] by (cases l) auto

lemma children_emit [simp]: "children (emit e w) = children w"
  by (simp add: emit_def)

lemma children_append_line [simp]: "children (append_line r t w) = children w"
  by (simp add: append_line_def)

lemma call_snd [simp]: "snd (call cb sid line w) = emit (Output sid line) w"
  by (simp add: call_def)

lemma readline_Inr:
  "readline r lab w = (Inr l, w1) \<Longrightarrow>
     l = fst (take_line (unread (stream_of lab (children w r)))) \<and>
     unread (stream_of lab (children w1 r)) = snd (take_line (unread (stream_of lab (children w r))))"
  by (auto simp: readline_def Let_def split: list.splits bool.splits prod.splits)

lemma reader_decreases:
  assumes "readline r lab w = (Inr l, w1)" and "l \<noteq> []"
    and "call cb sid t (append_line r t' w1) = (b, w3)"
  shows "length (unread (stream_of lab (children w3 r)))
           < length (unread (stream_of lab (children w r)))"
proof -
  have "w3 = emit (Output sid t) (append_line r t' w1)"
    using assms(3) call_snd [of cb sid t "append_line r t' w1"] by simp
  moreover have "length (unread (stream_of lab (children w1 r)))
           < length (unread (stream_of lab (children w r)))"
    using readline_Inr [OF assms(1)] assms(2)
      take_line_shorter [of "unread (stream_of lab (children w r))"]
    by (metis prod.collapse)
  ultimately show ?thesis by simp
qed

termination reader_loop
  apply (relation "measure (\<lambda>(cb, r, lab, w). length (unread (stream_of lab (children w r))))")
   apply simp
  apply simp
  apply (metis reader_decreases)
  done

declare reader_loop.simps [simp del]

text \<open>
  \<^verbatim>\<open>_reader\<close>: the loop, then \<^verbatim>\<open>stream.close()\<close>; an exception is logged and
  ends the task.
\<close>

definition reader :: "callback \<Rightarrow> ref \<Rightarrow> label \<Rightarrow> world \<Rightarrow> world" where
  "reader on_output r lab w =
     (case reader_loop on_output r lab w of
        (False, w1) \<Rightarrow> emit (CloseStream r lab) w1
      | (True, w1) \<Rightarrow> log ERROR ''Reader thread error for %s: %s'' w1)"

text \<open>\<^verbatim>\<open>ServerProcess.start_readers\<close>: the two capture threads are started, not run.\<close>

definition start_readers :: "ref \<Rightarrow> world \<Rightarrow> world" where
  "start_readers r w =
     (let w1 = emit (StartThread (Reader r OUT)) w;
          w2 = emit (StartThread (Reader r ERR)) w1
      in w2\<lparr>heap := (heap w2)(r := (heap w2 r)
              \<lparr>reader_threads := reader_threads (heap w2 r) @ [Reader r OUT, Reader r ERR]\<rparr>)\<rparr>)"

section \<open>Lifecycle supervisor\<close>

text \<open>\<^verbatim>\<open>ServerManager.start_server\<close>.\<close>

definition start_server ::
  "string \<Rightarrow> string \<Rightarrow> path \<Rightarrow> string option \<Rightarrow> (string \<rightharpoonup> string) option \<Rightarrow>
     callback option \<Rightarrow> world \<Rightarrow> (error + unit) \<times> world" where
  "start_server sid nm start_script cwd_opt env on_output w =
     (case (case processes w sid of
              None \<Rightarrow> (False, w)
            | Some r0 \<Rightarrow> (case poll r0 w of (rc, w') \<Rightarrow> (rc = None, w'))) of
        (True, w0) \<Rightarrow> (Inr (), log WARNING ''Server %s is already running'' w0)
      | (False, w0) \<Rightarrow>
          (case resolve_script w0 start_script of
             Inl e \<Rightarrow> (Inl e, log ERROR ''Start failed: %s'' w0)
           | Inr script_path \<Rightarrow>
               (let plat = lower (platform_system w0);
                    cmd = (if startswith plat ''win'' then [PathArg script_path]
                           else [Lit ''/bin/sh'', PathArg script_path]);
                    shell = startswith plat ''win'';
                    dir = (case cwd_opt of
                             None \<Rightarrow> ParentOf script_path
                           | Some d \<Rightarrow> if d = [] then ParentOf script_path else Dir d);
                    env' = environ w0 ++ (case env of None \<Rightarrow> Map.empty | Some e \<Rightarrow> e);
                    r = next_ref w0
                in if spawn_fault (children w0 r) then (Inl SpawnError, w0)
                   else
                     (let w1 = emit (Spawn r cmd shell dir env') w0;
                          sp = \<lparr>server_id = sid, name = nm, process = \<lparr>returncode = None\<rparr>,
                                stdout_lines = [], stop_requested = False, reader_threads = []\<rparr>;
                          w2 = w1\<lparr>heap := (heap w1)(r := sp), next_ref := Suc r\<rparr>;
                          w3 = (case on_output of None \<Rightarrow> w2 | Some cb \<Rightarrow> start_readers r w2);
                          w4 = w3\<lparr>processes := (processes w3)(sid \<mapsto> r)\<rparr>;
                          w5 = emit (StartThread (Watcher sid)) w4
                      in (Inr (), log INFO ''Started server %s (%s)'' w5)))))"

definition write_file :: "string \<Rightarrow> string \<Rightarrow> world \<Rightarrow> world" where
  "write_file fname content w = emit (WriteFile fname content) (w\<lparr>files := (files w)(fname \<mapsto> content)\<rparr>)"

text \<open>
  \<^verbatim>\<open>ServerManager._watch_process\<close>, from \<^verbatim>\<open>proc.wait()\<close> on, for the handle \<open>r\<close>
  the thread captured: \<open>None\<close> when the wait never returns; \<open>Inl CallbackError\<close> when
  the callback's exception leaves the function. \<^verbatim>\<open>open(logname, "w")\<close> raises
  where \<open>open_fault\<close> says so and otherwise replaces the file's content.
\<close>

definition watch_exited ::
  "string \<Rightarrow> callback option \<Rightarrow> ref \<Rightarrow> world \<Rightarrow> ((error + unit) \<times> world) option" where
  "watch_exited sid on_output r w =
     (case wait r w of
        None \<Rightarrow> None
      | Some (return_code, w1) \<Rightarrow>
          Some
            (let w2 = log INFO ''Process %s exited with code %s'' w1
             in if \<not> stop_requested (heap w2 r) then
                  (let w3 = log WARNING ''Server %s exited unexpectedly'' w2
                   in case (case on_output of
                              None \<Rightarrow> (False, w3)
                            | Some cb \<Rightarrow>
                                call cb sid (''[PROCESS EXITED] Return code '' @ str_int return_code) w3) of
                        (True, w4) \<Rightarrow> (Inl CallbackError, w4)
                      | (False, w4) \<Rightarrow>
                          (let logname = replace_spaces (name (heap w4 r) @ ''-latest.log'')
                           in if open_fault w4 logname
                              then (Inr (), log ERROR ''Failed to write latest log for %s'' w4)
                              else (Inr (),
                                    log INFO ''Wrote latest console to %s''
                                      (write_file logname (collect_console (heap w4 r)) w4))))
                else (Inr (), w2)))"


definition set_stop_requested :: "ref \<Rightarrow> world \<Rightarrow> world" where
  "set_stop_requested r w =
     emit (SetStopRequested r) (w\<lparr>heap := (heap w)(r := (heap w r)\<lparr>stop_requested := True\<rparr>)\<rparr>)"

text \<open>
  The wait of \<^verbatim>\<open>stop_server\<close>:
  \<^verbatim>\<open>while sp.process.poll() is None and (time.time() - start) < timeout: time.sleep(0.2)\<close>,
  with \<open>start\<close> in milliseconds and \<open>timeout\<close> in seconds.
\<close>

function wait_loop :: "ref \<Rightarrow> nat \<Rightarrow> int \<Rightarrow> world \<Rightarrow> world" where
  "wait_loop r start timeout w =
     (case poll r w of
        (rc, w1) \<Rightarrow>
          if rc = None \<and> int (clock w1) - int start < timeout * 1000
          then wait_loop r start timeout (sleep 200 w1)
          else w1)"
  by pat_completeness auto

lemma clock_poll [simp]: "clock (snd (poll r w)) = clock w"
  by (simp add: poll_def set_returncode_def split: option.splits nat.splits)

lemma clock_sleep [simp]: "clock (sleep ms w) = clock w + ms"
  by (simp add: sleep_def emit_def)

termination wait_loop
  apply (relation "measure (\<lambda>(r, start, timeout, w). nat (timeout * 1000 + int start - int (clock w)))")
   apply simp
  subgoal for r start timeout w x1 w1
    using clock_poll [of r w] by (auto dest!: arg_cong [where f = snd])
  done

declare wait_loop.simps [simp del]

text \<open>
  \<^verbatim>\<open>ServerManager.stop_server\<close>. \<open>sp_send_command\<close> catches every exception
  itself, so the \<^verbatim>\<open>except\<close> around the graceful command has no branch here.
\<close>

definition stop_server :: "string \<Rightarrow> string \<Rightarrow> int \<Rightarrow> world \<Rightarrow> bool \<times> world" where
  "stop_server sid graceful_cmd timeout w =
     (case processes w sid of
        None \<Rightarrow> (True, log WARNING ''Stop called for unknown server %s'' w)
      | Some r \<Rightarrow>
          (let w1 = set_stop_requested r w;
               w2 = snd (sp_send_command r graceful_cmd w1);
               w3 = wait_loop r (clock w2) timeout w2
           in case poll r w3 of
                (None, w4) \<Rightarrow>
                  (case kill r w4 of
                     (raised, w5) \<Rightarrow>
                       (let w6 = (if raised then log ERROR ''Failed to kill process for %s'' w5
                                  else log INFO ''Force killed process for %s'' w5)
                        in case poll r w6 of (rc, w7) \<Rightarrow> (rc \<noteq> None, w7)))
              | (Some c, w4) \<Rightarrow> (True, log INFO ''Server %s stopped cleanly'' w4)))"

text \<open>
  \<^verbatim>\<open>ServerManager.restart_server\<close>; its parameter \<^verbatim>\<open>config_force_kill\<close> is not
  read by the body.
\<close>

definition restart_server ::
  "string \<Rightarrow> string \<Rightarrow> path \<Rightarrow> string option \<Rightarrow> (string \<rightharpoonup> string) option \<Rightarrow>
     callback option \<Rightarrow> world \<Rightarrow> (error + unit) \<times> world" where
  "restart_server sid nm start_script cwd_opt env on_output w =
     (case stop_server sid ''stop'' 15 w of
        (stopped, w1) \<Rightarrow>
          (let w2 = (if \<not> stopped then
                       (let wa = log WARNING ''Graceful stop failed for %s; will force restart'' w1
                        in case processes wa sid of
                             None \<Rightarrow> wa
                           | Some r \<Rightarrow>
                               (case poll r wa of
                                  (Some c, wb) \<Rightarrow> wb
                                | (None, wb) \<Rightarrow>
                                    (case kill r wb of
                                       (raised, wc) \<Rightarrow>
                                         if raised
                                         then log ERROR ''Failed to kill during restart for %s'' wc
                                         else wc)))
                     else w1);
               w3 = w2\<lparr>processes := (processes w2)(sid := None)\<rparr>
           in start_server sid nm start_script cwd_opt env on_output w3))"

text \<open>\<^verbatim>\<open>ServerManager.send_command\<close>.\<close>

definition send_command :: "string \<Rightarrow> string \<Rightarrow> world \<Rightarrow> bool \<times> world" where
  "send_command sid cmd w =
     (case processes w sid of
        None \<Rightarrow> (False, log WARNING ''Send command to unknown server %s'' w)
      | Some r \<Rightarrow> sp_send_command r cmd w)"

text \<open>\<^verbatim>\<open>ServerManager.is_running\<close>.\<close>

definition is_running :: "string \<Rightarrow> world \<Rightarrow> bool \<times> world" where
  "is_running sid w =
     (case processes w sid of
        None \<Rightarrow> (False, w)
      | Some r \<Rightarrow> (case poll r w of (rc, w1) \<Rightarrow> (rc = None, w1)))"


section \<open>What an operation leaves alone\<close>

text \<open>
  \<open>frame w w'\<close>: from \<open>w\<close> to \<open>w'\<close> the registry, the allocation counter, the platform,
  the file system and every handle's identity, name, buffer and threads are the same, no
  stop flag has been reset, and the environment's fixed choices are the same. The clock,
  the journal, cached return codes and consumed environment answers may differ.
\<close>

definition frame :: "world \<Rightarrow> world \<Rightarrow> bool" where
  "frame w w' =
     (processes w' = processes w \<and> next_ref w' = next_ref w \<and>
      platform_system w' = platform_system w \<and> environ w' = environ w \<and>
      fs_exists w' = fs_exists w \<and> files w' = files w \<and> open_fault w' = open_fault w \<and>
      (\<forall>q. server_id (heap w' q) = server_id (heap w q) \<and> name (heap w' q) = name (heap w q) \<and>
           stdout_lines (heap w' q) = stdout_lines (heap w q) \<and>
           reader_threads (heap w' q) = reader_threads (heap w q) \<and>
           (stop_requested (heap w q) \<longrightarrow> stop_requested (heap w' q))) \<and>
      (\<forall>q. exit_status (children w' q) = exit_status (children w q) \<and>
           kill_fault (children w' q) = kill_fault (children w q) \<and>
           spawn_fault (children w' q) = spawn_fault (children w q) \<and>
           stdout (children w' q) = stdout (children w q) \<and>
           stderr (children w' q) = stderr (children w q)))"

text \<open>Both attempts of a write to standard input raise.\<close>

definition write_fails :: "bool list \<Rightarrow> bool" where
  "write_fails faults = (case faults of True # True # fs \<Rightarrow> True | _ \<Rightarrow> False)"

section \<open>What a capture task is expected to deliver\<close>







section \<open>The operations as steps\<close>

text \<open>
  The public methods and the two kinds of background task, as steps on the world.
  \<open>run\<close> gives the world after a step, \<open>None\<close> for a watcher whose wait never
  returns; \<open>runs\<close> runs a sequence of steps, an interleaving of callers and tasks.
\<close>

datatype op =
    Start string string path "string option" "(string \<rightharpoonup> string) option" "callback option"
  | Stop string string int
  | Restart string string path "string option" "(string \<rightharpoonup> string) option" "callback option"
  | SendCommand string string
  | IsRunning string
  | GetConsole string
  | ReaderTask callback ref label
  | WatcherExit string "callback option" ref

fun run :: "op \<Rightarrow> world \<Rightarrow> world option" where
  "run (Start sid nm p c e cb) w = Some (snd (start_server sid nm p c e cb w))"
| "run (Stop sid cmd timeout) w = Some (snd (stop_server sid cmd timeout w))"
| "run (Restart sid nm p c e cb) w = Some (snd (restart_server sid nm p c e cb w))"
| "run (SendCommand sid cmd) w = Some (snd (send_command sid cmd w))"
| "run (IsRunning sid) w = Some (snd (is_running sid w))"
| "run (GetConsole sid) w = Some w"
| "run (ReaderTask cb r lab) w = Some (reader cb r lab w)"
| "run (WatcherExit sid cb r) w = map_option snd (watch_exited sid cb r w)"

fun runs :: "op list \<Rightarrow> world \<Rightarrow> world option" where
  "runs [] w = Some w"
| "runs (x # xs) w = (case run x w of None \<Rightarrow> None | Some w1 \<Rightarrow> runs xs w1)"

text \<open>No allocated handle has its stop flag reset, and no reference is given back.\<close>

definition keeps :: "world \<Rightarrow> world \<Rightarrow> bool" where
  "keeps w w' =
     (next_ref w \<le> next_ref w' \<and>
      (\<forall>q. q < next_ref w \<longrightarrow> stop_requested (heap w q) \<longrightarrow> stop_requested (heap w' q)))"

section \<open>Concrete worlds for evaluation\<close>

text \<open>A world with nothing registered, on Linux, with an empty file system.\<close>

definition child0 :: child where
  "child0 = \<lparr>alive_polls = None, exit_status = 0, kill_fault = False, spawn_fault = False,
     stdin_faults = [], stdout = \<lparr>unread = [], read_faults = []\<rparr>,
     stderr = \<lparr>unread = [], read_faults = []\<rparr>\<rparr>"

definition handle0 :: server_process where
  "handle0 = \<lparr>server_id = [], name = [], process = \<lparr>returncode = None\<rparr>,
     stdout_lines = [], stop_requested = False, reader_threads = []\<rparr>"

definition world0 :: world where
  "world0 = \<lparr>processes = Map.empty, heap = (\<lambda>r. handle0), next_ref = 0,
     children = (\<lambda>r. child0), clock = 0, platform_system = ''Linux'', environ = Map.empty,
     fs_exists = (\<lambda>p. False), files = Map.empty, open_fault = (\<lambda>f. False), trace = []\<rparr>"

text \<open>
  A world in which \<open>''a''\<close> is registered as handle \<open>0\<close>, named \<open>My Server\<close>, with two
  buffered lines and a child that runs until it is told otherwise.
\<close>

definition handle1 :: server_process where
  "handle1 = \<lparr>server_id = ''a'', name = ''My Server'', process = \<lparr>returncode = None\<rparr>,
     stdout_lines = [''hello'', ''bye''], stop_requested = False, reader_threads = []\<rparr>"

definition world1 :: world where
  "world1 = world0\<lparr>processes := [''a'' \<mapsto> 0], heap := (\<lambda>r. handle0)(0 := handle1), next_ref := 1\<rparr>"

text \<open>As \<open>world1\<close>, with a broken pipe to the child, and with a child that has exited with status 3.\<close>

definition world_broken_pipe :: world where
  "world_broken_pipe = world1\<lparr>children := (\<lambda>r. child0\<lparr>stdin_faults := [True, True]\<rparr>)\<rparr>"

definition world_exited :: world where
  "world_exited = world1\<lparr>children := (\<lambda>r. child0\<lparr>alive_polls := Some 0, exit_status := 3\<rparr>)\<rparr>"



text \<open>As \<open>world1\<close>, with the launch script \<open>srv/run.sh\<close> present.\<close>

definition world_script :: world where
  "world_script = world1\<lparr>fs_exists := (\<lambda>q. q = Path ''srv'' ''run.sh'')\<rparr>"


section \<open>Frame lemmas\<close>

lemma frame_refl [simp]: "frame w w"
  by (simp add: frame_def)

lemma frame_trans: "frame w w1 \<Longrightarrow> frame w1 w2 \<Longrightarrow> frame w w2"
  by (simp add: frame_def)

lemma frame_emit [simp]: "frame w (emit e w') = frame w w'"
  by (simp add: frame_def emit_def)

lemma frame_log [simp]: "frame w (log lv m w') = frame w w'"
  by (simp add: log_def)

lemma frame_emit_left [simp]: "frame (emit e w) w' = frame w w'"
  by (simp add: frame_def emit_def)

lemma frame_log_left [simp]: "frame (log lv m w) w' = frame w w'"
  by (simp add: log_def)

lemma frame_poll: "poll r w = (rc, w1) \<Longrightarrow> frame w w1"
  by (auto simp: frame_def poll_def set_returncode_def split: option.splits nat.splits if_splits)

lemma frame_sleep [simp]: "frame w (sleep ms w') = frame w w'"
  by (simp add: frame_def sleep_def emit_def)

lemma frame_kill: "kill r w = (b, w1) \<Longrightarrow> frame w w1"
  by (auto simp: kill_def)

lemma frame_stdin_write: "stdin_write r t w = (b, w1) \<Longrightarrow> frame w w1"
  by (auto simp: frame_def stdin_write_def emit_def Let_def split: list.splits if_splits)

lemma frame_set_stop [simp]: "frame w (set_stop_requested r w)"
  by (simp add: frame_def set_stop_requested_def emit_def)

lemma frame_sp_send_command: "sp_send_command r cmd w = (b, w') \<Longrightarrow> frame w w'"
  unfolding sp_send_command_def
  by (auto split: prod.splits option.splits bool.splits
      dest!: frame_poll frame_stdin_write intro: frame_trans)

lemma frame_wait_loop: "frame w (wait_loop r start timeout w)"
proof (induction r start timeout w rule: wait_loop.induct)
  case (1 r start timeout w)
  obtain rc w1 where p: "poll r w = (rc, w1)" by (cases "poll r w")
  show ?case
  proof (cases "rc = None \<and> int (clock w1) - int start < timeout * 1000")
    case True
    have "frame (sleep 200 w1) (wait_loop r start timeout (sleep 200 w1))"
      using 1 [OF p [symmetric] True] .
    then have "frame w1 (wait_loop r start timeout (sleep 200 w1))"
      by (simp add: frame_def sleep_def emit_def)
    with frame_poll [OF p] True p show ?thesis
      by (subst wait_loop.simps) (auto intro: frame_trans)
  next
    case False
    with frame_poll [OF p] p show ?thesis
      by (subst wait_loop.simps) auto
  qed
qed

lemma frame_stop_server:
  assumes "stop_server sid cmd timeout w = (b, w')"
  shows "frame w w'"
proof (cases "processes w sid")
  case None
  with assms show ?thesis by (auto simp: stop_server_def)
next
  case (Some r)
  let ?w2 = "snd (sp_send_command r cmd (set_stop_requested r w))"
  let ?w3 = "wait_loop r (clock ?w2) timeout ?w2"
  have "frame (set_stop_requested r w) ?w2"
    by (rule frame_sp_send_command [OF prod.collapse [symmetric]])
  then have f2: "frame w ?w2"
    using frame_set_stop frame_trans by blast
  have f3: "frame w ?w3"
    using f2 frame_wait_loop frame_trans by blast
  from assms Some show ?thesis
    unfolding stop_server_def Let_def
    using f3
    by (auto split: prod.splits option.splits if_splits dest!: frame_poll frame_kill)
      (meson frame_trans)+
qed


section \<open>Script resolution\<close>





section \<open>Stopping and starting what is, or is not, registered\<close>

lemma stop_server_exited:
  assumes "processes w sid = Some r" and "fst (poll r w) \<noteq> None"
  shows "fst (stop_server sid graceful_cmd timeout w) \<and>
         processes (snd (stop_server sid graceful_cmd timeout w)) = processes w \<and>
         (\<forall>q. q \<noteq> r \<longrightarrow> heap (snd (stop_server sid graceful_cmd timeout w)) q = heap w q) \<and>
         trace (snd (stop_server sid graceful_cmd timeout w)) =
           trace w @ [SetStopRequested r,
                      Log WARNING ''Cannot send command; process not running for %s'',
                      Log INFO ''Server %s stopped cleanly'']"
proof (cases "returncode (process (heap w r))")
  case (Some c)
  with assms(1) show ?thesis
    by (simp add: stop_server_def set_stop_requested_def sp_send_command_def poll_def
        emit_def log_def wait_loop.simps Let_def)
next
  case None
  with assms(2) have "alive_polls (children w r) = Some 0"
    by (auto simp: poll_def split: option.splits nat.splits)
  with None assms(1) show ?thesis
    by (simp add: stop_server_def set_stop_requested_def sp_send_command_def poll_def
        emit_def log_def wait_loop.simps Let_def set_returncode_def)
qed

text \<open>
  Claim C8. For an id with no registered handle, \<open>stop_server\<close> returns true at once
  and raises nothing: the world it returns is the given one with a single warning added to
  the journal, so the registry, every handle, every child, the files and the clock are as
  they were, and nothing was written, killed or slept. The same holds for a server that
  has already stopped but is still registered: \<open>stop_server\<close> returns true without a
  write, a sleep or a kill, and the registry and all other handles are unchanged.
\<close>

theorem stop_server_unknown:
  "(processes w sid = None \<longrightarrow>
      stop_server sid graceful_cmd timeout w =
        (True, w\<lparr>trace := trace w @ [Log WARNING ''Stop called for unknown server %s'']\<rparr>)) \<and>
   (processes w sid = Some r \<and> fst (poll r w) \<noteq> None \<longrightarrow>
      fst (stop_server sid graceful_cmd timeout w) \<and>
      processes (snd (stop_server sid graceful_cmd timeout w)) = processes w \<and>
      (\<forall>q. q \<noteq> r \<longrightarrow> heap (snd (stop_server sid graceful_cmd timeout w)) q = heap w q) \<and>
      trace (snd (stop_server sid graceful_cmd timeout w)) =
        trace w @ [SetStopRequested r,
                   Log WARNING ''Cannot send command; process not running for %s'',
                   Log INFO ''Server %s stopped cleanly''])"
proof (intro conjI impI)
  assume "processes w sid = None"
  then show "stop_server sid graceful_cmd timeout w =
        (True, w\<lparr>trace := trace w @ [Log WARNING ''Stop called for unknown server %s'']\<rparr>)"
    by (simp add: stop_server_def log_def emit_def)
next
  assume a: "processes w sid = Some r \<and> fst (poll r w) \<noteq> None"
  then have a1: "processes w sid = Some r" and a2: "fst (poll r w) \<noteq> None" by simp_all
  note e = stop_server_exited [OF a1 a2, of graceful_cmd timeout]
  from e show "fst (stop_server sid graceful_cmd timeout w)" by simp
  from e show "processes (snd (stop_server sid graceful_cmd timeout w)) = processes w" by simp
  from e show "\<forall>q. q \<noteq> r \<longrightarrow> heap (snd (stop_server sid graceful_cmd timeout w)) q = heap w q"
    by simp
  from e show "trace (snd (stop_server sid graceful_cmd timeout w)) =
        trace w @ [SetStopRequested r,
                   Log WARNING ''Cannot send command; process not running for %s'',
                   Log INFO ''Server %s stopped cleanly'']" by simp
qed

text \<open>
  Stopping the unregistered id \<open>b\<close> in a world where only \<open>a\<close> is registered, and
  stopping \<open>a\<close> when its child has already exited.
\<close>

theorem stop_server_unknown_witness:
  "processes world1 ''b'' = None \<and>
   stop_server ''b'' ''stop'' 15 world1 =
     (True, world1\<lparr>trace := [Log WARNING ''Stop called for unknown server %s'']\<rparr>) \<and>
   processes world_exited ''a'' = Some 0 \<and> fst (poll 0 world_exited) = Some 3 \<and>
   fst (stop_server ''a'' ''stop'' 15 world_exited) \<and>
   processes (snd (stop_server ''a'' ''stop'' 15 world_exited)) ''a'' = Some 0 \<and>
   trace (snd (stop_server ''a'' ''stop'' 15 world_exited)) =
     [SetStopRequested 0, Log WARNING ''Cannot send command; process not running for %s'',
      Log INFO ''Server %s stopped cleanly'']"
proof -
  have a: "processes world1 ''b'' = None" "trace world1 = []"
    "processes world_exited ''a'' = Some 0" "trace world_exited = []"
    by (simp_all add: world1_def world_exited_def world0_def)
  have b: "fst (poll 0 world_exited) = Some 3"
    by (simp add: poll_def world1_def world0_def handle1_def child0_def world_exited_def)
  show ?thesis
    using stop_server_unknown [where w = world1 and sid = "''b''" and graceful_cmd = "''stop''"
        and timeout = 15]
      stop_server_unknown [where w = world_exited and sid = "''a''" and graceful_cmd = "''stop''"
        and timeout = 15 and r = 0]
      a b
    by simp
qed

lemma poll_None_heap: "poll r w = (None, w1) \<Longrightarrow> heap w1 = heap w \<and> trace w1 = trace w"
  by (auto simp: poll_def set_returncode_def split: option.splits nat.splits)

text \<open>
  Claim C9. When the id is registered and the status query of \<open>start_server\<close> finds the
  handle's process still running, \<open>start_server\<close> returns normally and the registry, the
  store of handles (buffer, stop flag and process object of every handle), the allocation
  counter and the files are unchanged; the journal gains exactly one warning, so nothing
  was spawned and no thread was started. Only the environment's answer to the status query
  is consumed.
\<close>

theorem start_server_duplicate:
  assumes "processes w sid = Some r" and "fst (poll r w) = None"
  shows "fst (start_server sid nm start_script cwd_opt env on_output w) = Inr () \<and>
         processes (snd (start_server sid nm start_script cwd_opt env on_output w)) = processes w \<and>
         heap (snd (start_server sid nm start_script cwd_opt env on_output w)) = heap w \<and>
         next_ref (snd (start_server sid nm start_script cwd_opt env on_output w)) = next_ref w \<and>
         files (snd (start_server sid nm start_script cwd_opt env on_output w)) = files w \<and>
         trace (snd (start_server sid nm start_script cwd_opt env on_output w)) =
           trace w @ [Log WARNING ''Server %s is already running'']"
proof -
  obtain w1 where p: "poll r w = (None, w1)"
    using assms(2) by (cases "poll r w") auto
  have "frame w w1" using frame_poll [OF p] .
  then show ?thesis
    using assms(1) p poll_None_heap [OF p]
    by (simp add: start_server_def log_def emit_def frame_def)
qed

text \<open>Starting \<open>a\<close> again while its child runs.\<close>

theorem start_server_duplicate_witness:
  "processes world1 ''a'' = Some 0 \<and> fst (poll 0 world1) = None \<and>
   fst (start_server ''a'' ''Other'' (Path ''srv'' ''run.sh'') None None None world1) = Inr () \<and>
   processes (snd (start_server ''a'' ''Other'' (Path ''srv'' ''run.sh'') None None None world1)) ''a'' = Some 0 \<and>
   heap (snd (start_server ''a'' ''Other'' (Path ''srv'' ''run.sh'') None None None world1)) 0 = handle1 \<and>
   trace (snd (start_server ''a'' ''Other'' (Path ''srv'' ''run.sh'') None None None world1)) =
     [Log WARNING ''Server %s is already running'']"
proof -
  have a: "processes world1 ''a'' = Some 0" by (simp add: world1_def)
  have b: "fst (poll 0 world1) = None"
    by (simp add: poll_def world1_def world0_def handle1_def child0_def)
  show ?thesis
    using start_server_duplicate [OF a b, of "''Other''" "Path ''srv'' ''run.sh''" None None None] a b
    by (simp add: world1_def world0_def)
qed

section \<open>Sending a command\<close>

lemma poll_keeps_stdin_faults:
  "poll r w = (rc, w1) \<Longrightarrow> stdin_faults (children w1 q) = stdin_faults (children w q)"
  by (auto simp: poll_def set_returncode_def split: option.splits nat.splits if_splits)

lemma poll_trace: "poll r w = (rc, w1) \<Longrightarrow> trace w1 = trace w"
  by (auto simp: poll_def set_returncode_def split: option.splits nat.splits if_splits)

lemma sp_send_command_result:
  assumes "poll r w = (rc, w1)"
  shows "sp_send_command r cmd w = (b, w') \<Longrightarrow>
     (b \<longleftrightarrow> rc = None \<and> \<not> write_fails (stdin_faults (children w r))) \<and>
     (b \<longrightarrow> trace w' = trace w @ [StdinWrite r (cmd @ [nl]), StdinFlush r,
                                   Log DEBUG ''Sent command to %s: %s'']) \<and>
     (\<not> b \<longrightarrow> (\<exists>m. trace w' = trace w @ [Log (if rc = None then ERROR else WARNING) m]))"
  using poll_keeps_stdin_faults [OF assms, of r] poll_trace [OF assms] assms
  unfolding sp_send_command_def
  by (cases rc; cases "stdin_faults (children w r)")
     (auto simp: stdin_write_def write_fails_def log_def emit_def Let_def
           split: list.splits if_splits bool.splits)


text \<open>
  Claim C7. \<open>send_command\<close> never raises (it returns a truth value in every case) and
  returns false exactly when the id has no registered handle, or the handle's process is
  found no longer running, or the write to standard input fails (the write and its one
  retry both raise). When it returns true, the text followed by a newline was written to
  the process's standard input and the stream was flushed right after; when it returns
  false, nothing was written and one record was logged.
\<close>

theorem send_command_result:
  "(fst (send_command sid cmd w) = False \<longleftrightarrow>
      (processes w sid = None \<or>
       (\<exists>r. processes w sid = Some r \<and>
          (fst (poll r w) \<noteq> None \<or> write_fails (stdin_faults (children w r)))))) \<and>
   (fst (send_command sid cmd w) \<longrightarrow>
      (\<exists>r. processes w sid = Some r \<and>
         trace (snd (send_command sid cmd w)) =
           trace w @ [StdinWrite r (cmd @ [nl]), StdinFlush r, Log DEBUG ''Sent command to %s: %s''])) \<and>
   (\<not> fst (send_command sid cmd w) \<longrightarrow>
      (\<exists>lv m. trace (snd (send_command sid cmd w)) = trace w @ [Log lv m]))"
proof (cases "processes w sid")
  case None
  then show ?thesis by (auto simp: send_command_def log_def emit_def)
next
  case (Some r)
  obtain rc w1 where p: "poll r w = (rc, w1)" by (cases "poll r w")
  obtain b w' where s: "sp_send_command r cmd w = (b, w')" by (cases "sp_send_command r cmd w")
  from sp_send_command_result [OF p s] Some p s show ?thesis
    by (auto simp: send_command_def)
qed

text \<open>A delivered command, an unknown id, a broken pipe and an exited child.\<close>

theorem send_command_result_witness:
  "fst (send_command ''a'' ''say hi'' world1) \<and>
   trace (snd (send_command ''a'' ''say hi'' world1)) =
     [StdinWrite 0 (''say hi'' @ [nl]), StdinFlush 0, Log DEBUG ''Sent command to %s: %s''] \<and>
   \<not> fst (send_command ''b'' ''say hi'' world1) \<and>
   \<not> fst (send_command ''a'' ''say hi'' world_broken_pipe) \<and>
   \<not> fst (send_command ''a'' ''say hi'' world_exited)"
proof -
  have 1: "processes world1 ''a'' = Some 0" "processes world1 ''b'' = None"
    "processes world_broken_pipe ''a'' = Some 0" "processes world_exited ''a'' = Some 0"
    by (simp_all add: world1_def world_broken_pipe_def world_exited_def)
  have 2: "fst (poll 0 world1) = None" "fst (poll 0 world_exited) = Some 3"
    by (simp_all add: poll_def world1_def world0_def handle1_def child0_def world_exited_def)
  have 3: "\<not> write_fails (stdin_faults (children world1 0))"
    "write_fails (stdin_faults (children world_broken_pipe 0))"
    by (simp_all add: write_fails_def world1_def world0_def child0_def world_broken_pipe_def)
  have 4: "trace world1 = []" by (simp add: world1_def world0_def)
  show ?thesis
    using send_command_result [of "''a''" "''say hi''" world1]
      send_command_result [of "''b''" "''say hi''" world1]
      send_command_result [of "''a''" "''say hi''" world_broken_pipe]
      send_command_result [of "''a''" "''say hi''" world_exited]
    by (simp add: 1 2 3 4)
qed

section \<open>Restart\<close>

lemma stop_server_after_flag:
  assumes "processes w sid = Some r" and "stop_server sid cmd timeout w = (b, w')"
  shows "frame (set_stop_requested r w) w'"
proof -
  let ?w1 = "set_stop_requested r w"
  let ?w2 = "snd (sp_send_command r cmd ?w1)"
  let ?w3 = "wait_loop r (clock ?w2) timeout ?w2"
  have f2: "frame ?w1 ?w2"
    by (rule frame_sp_send_command [OF prod.collapse [symmetric]])
  have f3: "frame ?w1 ?w3"
    using f2 frame_wait_loop frame_trans by blast
  from assms show ?thesis
    unfolding stop_server_def Let_def
    using f3
    by (auto split: prod.splits option.splits if_splits dest!: frame_poll frame_kill)
      (meson frame_trans)+
qed

lemma stop_server_sets_flag:
  assumes "processes w sid = Some r" and "stop_server sid cmd timeout w = (b, w')"
  shows "stop_requested (heap w' r)"
proof -
  have "stop_requested (heap (set_stop_requested r w) r)"
    by (simp add: set_stop_requested_def emit_def)
  with stop_server_after_flag [OF assms] show ?thesis
    by (simp add: frame_def)
qed


text \<open>The extra kill attempt of restart.\<close>

lemma restart_kill_frame:
  "frame w1
     (if \<not> stopped then
        (let wa = log WARNING m1 w1
         in case processes wa sid of
              None \<Rightarrow> wa
            | Some r \<Rightarrow>
                (case poll r wa of
                   (Some c, wb) \<Rightarrow> wb
                 | (None, wb) \<Rightarrow>
                     (case kill r wb of
                        (raised, wc) \<Rightarrow> if raised then log ERROR m2 wc else wc)))
      else w1)"
  by (auto simp: Let_def split: option.splits prod.splits dest!: frame_poll frame_kill)
    (meson frame_trans)+


lemma restart_server_unfold:
  "\<exists>w2. frame w w2 \<and>
     (\<forall>r. processes w sid = Some r \<longrightarrow> stop_requested (heap w2 r)) \<and>
     restart_server sid nm p cwd_opt env on_output w =
       start_server sid nm p cwd_opt env on_output (w2\<lparr>processes := (processes w2)(sid := None)\<rparr>)"
proof -
  obtain stopped w1 where s: "stop_server sid ''stop'' 15 w = (stopped, w1)"
    by (cases "stop_server sid ''stop'' 15 w")
  let ?w2 = "(if \<not> stopped then
        (let wa = log WARNING ''Graceful stop failed for %s; will force restart'' w1
         in case processes wa sid of
              None \<Rightarrow> wa
            | Some r \<Rightarrow>
                (case poll r wa of
                   (Some c, wb) \<Rightarrow> wb
                 | (None, wb) \<Rightarrow>
                     (case kill r wb of
                        (raised, wc) \<Rightarrow> if raised then log ERROR ''Failed to kill during restart for %s'' wc else wc)))
      else w1)"
  have f1: "frame w w1" by (rule frame_stop_server [OF s])
  have f12: "frame w1 ?w2" by (rule restart_kill_frame)
  have f2: "frame w ?w2" using f1 f12 frame_trans by blast
  have fl: "stop_requested (heap ?w2 r)" if "processes w sid = Some r" for r
    using stop_server_sets_flag [OF that s] f12 by (simp add: frame_def)
  have "restart_server sid nm p cwd_opt env on_output w =
       start_server sid nm p cwd_opt env on_output (?w2\<lparr>processes := (processes ?w2)(sid := None)\<rparr>)"
    by (simp add: restart_server_def s Let_def)
  with f2 fl show ?thesis by blast
qed




section \<open>Output capture is in order\<close>
















section \<open>The watcher\<close>

lemma wait_keeps:
  assumes "wait r w = Some (rc, w1)"
  shows "trace w1 = trace w \<and> files w1 = files w \<and> open_fault w1 = open_fault w \<and>
         processes w1 = processes w \<and> next_ref w1 = next_ref w \<and>
         (\<forall>q. name (heap w1 q) = name (heap w q) \<and>
              stdout_lines (heap w1 q) = stdout_lines (heap w q) \<and>
              stop_requested (heap w1 q) = stop_requested (heap w q) \<and>
              server_id (heap w1 q) = server_id (heap w q))"
  using assms
  by (auto simp: wait_def set_returncode_def split: option.splits if_splits)








section \<open>Graceful stop, then kill\<close>

lemma poll_Some: "poll r w = (Some c, w1) \<Longrightarrow> returncode (process (heap w1 r)) = Some c"
  by (auto simp: poll_def set_returncode_def split: option.splits nat.splits)



lemma wait_loop_spec:
  "\<exists>n. trace (wait_loop r start timeout w) = trace w @ replicate n (Sleep 200) \<and>
       clock (wait_loop r start timeout w) = clock w + 200 * n \<and>
       (0 < n \<longrightarrow> int (clock w) + 200 * (int n - 1) - int start < timeout * 1000) \<and>
       (returncode (process (heap (wait_loop r start timeout w) r)) \<noteq> None \<or>
        timeout * 1000 \<le> int (clock w) + 200 * int n - int start)"
proof (induction r start timeout w rule: wait_loop.induct)
  case (1 r start timeout w)
  obtain rc w1 where p: "poll r w = (rc, w1)" by (cases "poll r w")
  have c1: "clock w1 = clock w" using clock_poll [of r w] p by simp
  have t1: "trace w1 = trace w" using poll_trace [OF p] .
  show ?case
  proof (cases "rc = None \<and> int (clock w1) - int start < timeout * 1000")
    case True
    let ?w2 = "sleep 200 w1"
    have unf: "wait_loop r start timeout w = wait_loop r start timeout ?w2"
      using p True by (simp add: wait_loop.simps [of r start timeout w])
    from 1 [OF p [symmetric] True] obtain n where
      a: "trace (wait_loop r start timeout ?w2) = trace ?w2 @ replicate n (Sleep 200)"
      and b: "clock (wait_loop r start timeout ?w2) = clock ?w2 + 200 * n"
      and c: "0 < n \<longrightarrow> int (clock ?w2) + 200 * (int n - 1) - int start < timeout * 1000"
      and d: "returncode (process (heap (wait_loop r start timeout ?w2) r)) \<noteq> None \<or>
        timeout * 1000 \<le> int (clock ?w2) + 200 * int n - int start"
      by blast
    have t2: "trace ?w2 = trace w @ [Sleep 200]" by (simp add: sleep_def emit_def t1)
    have c2: "clock ?w2 = clock w + 200" by (simp add: c1)
    have "trace (wait_loop r start timeout w) = trace w @ replicate (Suc n) (Sleep 200)"
      using a t2 unf by (simp add: replicate_app_Cons_same)
    moreover have "clock (wait_loop r start timeout w) = clock w + 200 * Suc n"
      using b c2 unf by simp
    moreover have "int (clock w) + 200 * (int (Suc n) - 1) - int start < timeout * 1000"
      using c c2 True c1 by (cases n) auto
    moreover have "returncode (process (heap (wait_loop r start timeout w) r)) \<noteq> None \<or>
        timeout * 1000 \<le> int (clock w) + 200 * int (Suc n) - int start"
      using d c2 unf by auto
    ultimately show ?thesis by (intro exI [of _ "Suc n"]) simp
  next
    case False
    have unf: "wait_loop r start timeout w = w1"
      using p False by (subst wait_loop.simps) auto
    have "returncode (process (heap w1 r)) \<noteq> None \<or> timeout * 1000 \<le> int (clock w) - int start"
      using False c1 poll_Some [of r w _ w1] p by (cases rc) auto
    then show ?thesis
      using unf t1 c1 by (intro exI [of _ 0]) simp
  qed
qed


lemma clock_emit [simp]: "clock (emit e w) = clock w"
  by (simp add: emit_def)

lemma clock_log [simp]: "clock (log lv m w) = clock w"
  by (simp add: log_def)








section \<open>The stop flag\<close>

lemma keeps_refl [simp]: "keeps w w"
  by (simp add: keeps_def)

lemma keeps_trans: "keeps w w1 \<Longrightarrow> keeps w1 w2 \<Longrightarrow> keeps w w2"
  by (auto simp: keeps_def)

lemma frame_keeps: "frame w w' \<Longrightarrow> keeps w w'"
  by (simp add: frame_def keeps_def)

lemma start_server_cases:
  assumes "start_server sid nm p c e cb w = (res, w')"
  shows "\<exists>w0. frame w w0 \<and>
     ((processes w' = processes w \<and> next_ref w' = next_ref w \<and>
       (\<forall>q. stop_requested (heap w' q) = stop_requested (heap w0 q)) \<and>
       (\<forall>q. stdout_lines (heap w' q) = stdout_lines (heap w0 q))) \<or>
      (processes w' = (processes w)(sid \<mapsto> next_ref w) \<and> next_ref w' = Suc (next_ref w) \<and>
       (\<forall>q. q \<noteq> next_ref w \<longrightarrow> stop_requested (heap w' q) = stop_requested (heap w0 q)) \<and>
       \<not> stop_requested (heap w' (next_ref w)) \<and>
       (case processes w sid of None \<Rightarrow> True | Some r \<Rightarrow> fst (poll r w) \<noteq> None)))"
proof -
  obtain dup w0 where d: "(case processes w sid of
              None \<Rightarrow> (False, w)
            | Some r0 \<Rightarrow> (case poll r0 w of (rc, w') \<Rightarrow> (rc = None, w'))) = (dup, w0)"
    by (cases "(case processes w sid of
              None \<Rightarrow> (False, w)
            | Some r0 \<Rightarrow> (case poll r0 w of (rc, w') \<Rightarrow> (rc = None, w')))")
  have f: "frame w w0"
    using d by (auto split: option.splits prod.splits dest: frame_poll)
  have nd: "\<not> dup \<Longrightarrow> (case processes w sid of None \<Rightarrow> True | Some r \<Rightarrow> fst (poll r w) \<noteq> None)"
    using d by (auto split: option.splits prod.splits)
  have fr: "processes w0 = processes w" "next_ref w0 = next_ref w"
    using f by (simp_all add: frame_def)
  let ?A = "processes w' = processes w \<and> next_ref w' = next_ref w \<and>
       (\<forall>q. stop_requested (heap w' q) = stop_requested (heap w0 q)) \<and>
       (\<forall>q. stdout_lines (heap w' q) = stdout_lines (heap w0 q))"
  let ?B = "processes w' = (processes w)(sid \<mapsto> next_ref w) \<and> next_ref w' = Suc (next_ref w) \<and>
       (\<forall>q. q \<noteq> next_ref w \<longrightarrow> stop_requested (heap w' q) = stop_requested (heap w0 q)) \<and>
       \<not> stop_requested (heap w' (next_ref w)) \<and>
       (case processes w sid of None \<Rightarrow> True | Some r \<Rightarrow> fst (poll r w) \<noteq> None)"
  have "?A \<or> ?B"
  proof (cases dup)
    case True
    then have "w' = log WARNING ''Server %s is already running'' w0"
      using assms unfolding start_server_def d by simp
    then have ?A using fr by (simp add: log_def emit_def)
    then show ?thesis ..
  next
    case nd': False
    show ?thesis
    proof (cases "resolve_script w0 p")
      case (Inl err)
      then have "w' = log ERROR ''Start failed: %s'' w0"
        using assms nd' unfolding start_server_def d by simp
      then have ?A using fr by (simp add: log_def emit_def)
      then show ?thesis ..
    next
      case (Inr script_path)
      show ?thesis
      proof (cases "spawn_fault (children w0 (next_ref w0))")
        case True
        then have "w' = w0"
          using assms nd' Inr unfolding start_server_def d by (simp add: Let_def)
        then have ?A using fr by simp
        then show ?thesis ..
      next
        case False
        have ?B
          using assms nd' Inr False fr nd [OF nd'] unfolding start_server_def d
          by (cases cb) (auto simp: Let_def log_def emit_def start_readers_def)
        then show ?thesis ..
      qed
    qed
  qed
  with f show ?thesis by blast
qed


lemma start_server_keeps:
  assumes "start_server sid nm p c e cb w = (res, w')"
  shows "keeps w w'"
proof -
  from start_server_cases [OF assms] obtain w0 where "frame w w0"
    and "(next_ref w' = next_ref w \<and> (\<forall>q. stop_requested (heap w' q) = stop_requested (heap w0 q))) \<or>
         (next_ref w' = Suc (next_ref w) \<and>
          (\<forall>q. q \<noteq> next_ref w \<longrightarrow> stop_requested (heap w' q) = stop_requested (heap w0 q)))"
    by blast
  then show ?thesis
    by (auto simp: keeps_def frame_def)
qed


lemma restart_server_keeps:
  assumes "restart_server sid nm p c e cb w = (res, w')"
  shows "keeps w w'"
proof -
  from restart_server_unfold [of w sid nm p c e cb] obtain w2 where f: "frame w w2"
    and r: "restart_server sid nm p c e cb w =
       start_server sid nm p c e cb (w2\<lparr>processes := (processes w2)(sid := None)\<rparr>)"
    by blast
  have "keeps (w2\<lparr>processes := (processes w2)(sid := None)\<rparr>) w'"
    using start_server_keeps assms r by metis
  moreover have "keeps w (w2\<lparr>processes := (processes w2)(sid := None)\<rparr>)"
    using f by (simp add: keeps_def frame_def)
  ultimately show ?thesis by (rule keeps_trans [rotated])
qed


lemma readline_keeps:
  "readline r lab w = (res, w1) \<Longrightarrow>
     next_ref w1 = next_ref w \<and> processes w1 = processes w \<and> heap w1 = heap w"
  by (auto simp: readline_def Let_def split: list.splits bool.splits prod.splits)

lemma reader_loop_keeps:
  "reader_loop cb r lab w = (b, w') \<Longrightarrow>
     next_ref w' = next_ref w \<and> processes w' = processes w \<and>
     (\<forall>q. stop_requested (heap w' q) = stop_requested (heap w q))"
proof (induction cb r lab w arbitrary: b w' rule: reader_loop.induct)
  case (1 cb r lab w)
  obtain res w1 where rl: "readline r lab w = (res, w1)" by (cases "readline r lab w")
  note k1 = readline_keeps [OF rl]
  show ?case
  proof (cases res)
    case (Inl u)
    with rl "1.prems" have "w' = w1" by (auto simp: reader_loop.simps [of cb r lab w])
    with k1 show ?thesis by simp
  next
    case (Inr l)
    show ?thesis
    proof (cases "l = []")
      case True
      with Inr rl "1.prems" have "w' = w1" by (auto simp: reader_loop.simps [of cb r lab w])
      with k1 show ?thesis by simp
    next
      case False
      let ?t = "rstrip_nl l"
      let ?w2 = "append_line r ?t w1"
      obtain c w3 where c: "call cb (server_id (heap ?w2 r)) ?t ?w2 = (c, w3)"
        by (cases "call cb (server_id (heap ?w2 r)) ?t ?w2")
      have w3: "w3 = emit (Output (server_id (heap ?w2 r)) ?t) ?w2"
        using c by (auto simp: call_def)
      have k3: "next_ref w3 = next_ref w \<and> processes w3 = processes w \<and>
         (\<forall>q. stop_requested (heap w3 q) = stop_requested (heap w q))"
        using k1 by (simp add: w3 append_line_def emit_def)
      have unf: "reader_loop cb r lab w = (if c then (True, w3) else reader_loop cb r lab w3)"
        using rl Inr False c
        by (simp add: reader_loop.simps [of cb r lab w] Let_def split: bool.splits)
      show ?thesis
      proof (cases c)
        case True
        with unf "1.prems" have "w' = w3" by simp
        with k3 show ?thesis by simp
      next
        case nc: False
        with unf "1.prems" have rec: "reader_loop cb r lab w3 = (b, w')" by simp
        have cf: "c = False" using nc by simp
        from "1.IH" [OF rl [symmetric] Inr False refl refl c [symmetric] cf rec] k3
        show ?thesis by simp
      qed
    qed
  qed
qed

lemma reader_keeps:
  "next_ref (reader cb r lab w) = next_ref w \<and> processes (reader cb r lab w) = processes w \<and>
   (\<forall>q. stop_requested (heap (reader cb r lab w) q) = stop_requested (heap w q))"
proof -
  obtain b w' where rl: "reader_loop cb r lab w = (b, w')" by (cases "reader_loop cb r lab w")
  from reader_loop_keeps [OF rl] rl show ?thesis
    by (cases b) (simp_all add: reader_def log_def emit_def)
qed

lemma watch_exited_keeps:
  assumes "watch_exited sid cb r w = Some (res, w')"
  shows "next_ref w' = next_ref w \<and> processes w' = processes w \<and>
     (\<forall>q. stop_requested (heap w' q) = stop_requested (heap w q))"
proof -
  from assms obtain rc w1 where wt: "wait r w = Some (rc, w1)"
    by (auto simp: watch_exited_def split: option.splits)
  note k1 = wait_keeps [OF wt]
  let ?P = "\<lambda>v. next_ref v = next_ref w1 \<and> processes v = processes w1 \<and> heap v = heap w1"
  let ?w2 = "log INFO ''Process %s exited with code %s'' w1"
  let ?w3 = "log WARNING ''Server %s exited unexpectedly'' ?w2"
  have p3: "?P ?w3" by (simp add: log_def emit_def)
  obtain raised w4 where c: "(case cb of None \<Rightarrow> (False, ?w3)
        | Some f \<Rightarrow> call f sid (''[PROCESS EXITED] Return code '' @ str_int rc) ?w3) = (raised, w4)"
    by (cases "(case cb of None \<Rightarrow> (False, ?w3)
        | Some f \<Rightarrow> call f sid (''[PROCESS EXITED] Return code '' @ str_int rc) ?w3)")
  have p4: "?P w4"
    using c p3 by (cases cb) (auto simp: call_def emit_def)
  have "?P w'"
  proof (cases "stop_requested (heap ?w2 r)")
    case True
    then have "w' = ?w2" using assms wt by (simp add: watch_exited_def Let_def)
    then show ?thesis by (simp add: log_def emit_def)
  next
    case nf: False
    show ?thesis
    proof (cases raised)
      case True
      then have "w' = w4" using assms wt nf c by (simp add: watch_exited_def Let_def)
      with p4 show ?thesis by simp
    next
      case False
      then have "w' = (let logname = replace_spaces (name (heap w4 r) @ ''-latest.log'')
                           in if open_fault w4 logname
                              then log ERROR ''Failed to write latest log for %s'' w4
                              else log INFO ''Wrote latest console to %s''
                                      (write_file logname (collect_console (heap w4 r)) w4))"
        using assms wt nf c by (simp add: watch_exited_def Let_def split: if_splits)
      with p4 show ?thesis by (simp add: Let_def log_def emit_def write_file_def)
    qed
  qed
  with k1 show ?thesis by simp
qed

lemma run_keeps: "run x w = Some w' \<Longrightarrow> keeps w w'"
proof (cases x)
  case (Start sid nm p c e cb)
  assume "run x w = Some w'"
  with Start show ?thesis
    using start_server_keeps [OF prod.collapse [symmetric]] by auto
next
  case (Stop sid cmd timeout)
  assume "run x w = Some w'"
  with Stop show ?thesis
    using frame_stop_server [OF prod.collapse [symmetric], THEN frame_keeps] by auto
next
  case (Restart sid nm p c e cb)
  assume "run x w = Some w'"
  with Restart show ?thesis
    using restart_server_keeps [OF prod.collapse [symmetric]] by auto
next
  case (SendCommand sid cmd)
  assume "run x w = Some w'"
  with SendCommand show ?thesis
  proof (cases "processes w sid")
    case None
    with SendCommand \<open>run x w = Some w'\<close> show ?thesis
      by (auto simp: send_command_def log_def emit_def keeps_def)
  next
    case (Some r)
    with SendCommand \<open>run x w = Some w'\<close> have "w' = snd (sp_send_command r cmd w)"
      by (auto simp: send_command_def)
    then show ?thesis
      using frame_sp_send_command [OF prod.collapse [symmetric], THEN frame_keeps] by simp
  qed
next
  case (IsRunning sid)
  assume "run x w = Some w'"
  with IsRunning show ?thesis
    using frame_poll [THEN frame_keeps]
    by (auto simp: is_running_def split: option.splits prod.splits)
next
  case (GetConsole sid)
  assume "run x w = Some w'"
  with GetConsole show ?thesis by auto
next
  case (ReaderTask cb r lab)
  assume "run x w = Some w'"
  with ReaderTask show ?thesis
    using reader_keeps [of cb r lab w] by (auto simp: keeps_def)
next
  case (WatcherExit sid cb r)
  assume "run x w = Some w'"
  with WatcherExit show ?thesis
    using watch_exited_keeps [of sid cb r w] by (auto simp: keeps_def)
qed

lemma runs_keeps: "runs xs w = Some w' \<Longrightarrow> keeps w w'"
proof (induction xs arbitrary: w)
  case Nil
  then show ?case by simp
next
  case (Cons x xs)
  then obtain w1 where a: "run x w = Some w1" and b: "runs xs w1 = Some w'"
    by (auto split: option.splits)
  from run_keeps [OF a] Cons.IH [OF b] show ?case by (rule keeps_trans)
qed


lemma start_server_trace:
  "\<exists>es. trace (snd (start_server sid nm p c e cb w)) = trace w @ es"
proof -
  obtain dup w0 where d: "(case processes w sid of
              None \<Rightarrow> (False, w)
            | Some r0 \<Rightarrow> (case poll r0 w of (rc, w') \<Rightarrow> (rc = None, w'))) = (dup, w0)"
    by (cases "(case processes w sid of
              None \<Rightarrow> (False, w)
            | Some r0 \<Rightarrow> (case poll r0 w of (rc, w') \<Rightarrow> (rc = None, w')))")
  have t0: "trace w0 = trace w"
    using d by (auto split: option.splits prod.splits dest: poll_trace)
  show ?thesis
  proof (cases dup)
    case True
    then show ?thesis
      unfolding start_server_def d using t0 by (simp add: log_def emit_def)
  next
    case nd: False
    show ?thesis
    proof (cases "resolve_script w0 p")
      case (Inl err)
      then show ?thesis
        unfolding start_server_def d using t0 nd by (simp add: log_def emit_def)
    next
      case (Inr script_path)
      show ?thesis
      proof (cases "spawn_fault (children w0 (next_ref w0))")
        case True
        then show ?thesis
          unfolding start_server_def d using t0 nd Inr by (simp add: Let_def)
      next
        case False
        then show ?thesis
          unfolding start_server_def d using t0 nd Inr
          by (cases cb) (simp_all add: Let_def log_def emit_def start_readers_def)
      qed
    qed
  qed
qed

lemma restart_server_trace:
  "\<exists>es. trace (snd (restart_server sid nm p c e cb w)) =
          trace (snd (stop_server sid ''stop'' 15 w)) @ es"
proof -
  obtain stopped w1 where s: "stop_server sid ''stop'' 15 w = (stopped, w1)"
    by (cases "stop_server sid ''stop'' 15 w")
  let ?w2 = "(if \<not> stopped then
        (let wa = log WARNING ''Graceful stop failed for %s; will force restart'' w1
         in case processes wa sid of
              None \<Rightarrow> wa
            | Some r \<Rightarrow>
                (case poll r wa of
                   (Some c, wb) \<Rightarrow> wb
                 | (None, wb) \<Rightarrow>
                     (case kill r wb of
                        (raised, wc) \<Rightarrow> if raised then log ERROR ''Failed to kill during restart for %s'' wc else wc)))
      else w1)"
  have t2: "\<exists>es. trace ?w2 = trace w1 @ es"
    by (auto simp: Let_def log_def emit_def kill_def split: option.splits prod.splits
        dest!: poll_trace)
  let ?w3 = "?w2\<lparr>processes := (processes ?w2)(sid := None)\<rparr>"
  have r: "restart_server sid nm p c e cb w = start_server sid nm p c e cb ?w3"
    by (simp add: restart_server_def s Let_def)
  from start_server_trace [of sid nm p c e cb ?w3] obtain es2 where
    "trace (snd (start_server sid nm p c e cb ?w3)) = trace ?w3 @ es2" by blast
  moreover have "trace ?w3 = trace ?w2" by simp
  ultimately show ?thesis
    using t2 r s by (metis append.assoc snd_conv)
qed

lemma trace_sp_send_command:
  "\<exists>es. trace (snd (sp_send_command r cmd w)) = trace w @ es"
proof -
  obtain rc w1 where p: "poll r w = (rc, w1)" by (cases "poll r w")
  obtain b w' where s: "sp_send_command r cmd w = (b, w')" by (cases "sp_send_command r cmd w")
  from sp_send_command_result [OF p s] s show ?thesis by (cases b) auto
qed

lemma stop_server_flag_first:
  assumes "processes w sid = Some r"
  shows "\<exists>rest. trace (snd (stop_server sid cmd timeout w)) = trace w @ SetStopRequested r # rest"
proof -
  let ?w1 = "set_stop_requested r w"
  let ?w2 = "snd (sp_send_command r cmd ?w1)"
  let ?w3 = "wait_loop r (clock ?w2) timeout ?w2"
  have t1: "trace ?w1 = trace w @ [SetStopRequested r]"
    by (simp add: set_stop_requested_def emit_def)
  obtain es2 where t2: "trace ?w2 = trace ?w1 @ es2"
    using trace_sp_send_command by blast
  obtain n where t3: "trace ?w3 = trace ?w2 @ replicate n (Sleep 200)"
    using wait_loop_spec [of r "clock ?w2" timeout ?w2] by blast
  have "\<exists>es. trace (snd (stop_server sid cmd timeout w)) = trace ?w3 @ es"
    using assms unfolding stop_server_def Let_def
    by (auto simp: log_def emit_def kill_def split: option.splits prod.splits dest!: poll_trace)
  then obtain es where "trace (snd (stop_server sid cmd timeout w)) = trace ?w3 @ es" by blast
  with t1 t2 t3 show ?thesis by simp
qed

text \<open>
  Claim C6. A handle that \<open>start_server\<close> creates has its stop flag false. Along any
  sequence of operations and background tasks, a stop flag that is true on an allocated
  handle stays true: it is never reset. And for a registered id, the first thing
  \<open>stop_server\<close> and \<open>restart_server\<close> add to the journal is the setting of the flag, so
  every write to the process's standard input and every kill they make comes after it;
  the flag is true when \<open>stop_server\<close> returns and in every world reached from there,
  which is where a watcher reads it after the exit.
\<close>

theorem stop_requested_set_once_and_first:
  "(start_server sid nm p c e cb w = (res, w') \<and> next_ref w' \<noteq> next_ref w \<longrightarrow>
      processes w' sid = Some (next_ref w) \<and> \<not> stop_requested (heap w' (next_ref w))) \<and>
   (runs xs w = Some w'' \<and> q < next_ref w \<and> stop_requested (heap w q) \<longrightarrow>
      stop_requested (heap w'' q)) \<and>
   (processes w sid = Some r \<longrightarrow>
      (\<exists>rest. trace (snd (stop_server sid graceful_cmd timeout w)) =
                 trace w @ SetStopRequested r # rest) \<and>
      (\<exists>rest. trace (snd (restart_server sid nm p c e cb w)) =
                 trace w @ SetStopRequested r # rest) \<and>
      stop_requested (heap (snd (stop_server sid graceful_cmd timeout w)) r) \<and>
      (r < next_ref w \<and> runs ys (snd (stop_server sid graceful_cmd timeout w)) = Some v \<longrightarrow>
         stop_requested (heap v r)))"
proof (intro conjI impI)
  assume a: "start_server sid nm p c e cb w = (res, w') \<and> next_ref w' \<noteq> next_ref w"
  from start_server_cases [of sid nm p c e cb w res w'] a
  show "processes w' sid = Some (next_ref w)" by auto
  from start_server_cases [of sid nm p c e cb w res w'] a
  show "\<not> stop_requested (heap w' (next_ref w))" by auto
next
  assume "runs xs w = Some w'' \<and> q < next_ref w \<and> stop_requested (heap w q)"
  then show "stop_requested (heap w'' q)"
    using runs_keeps [of xs w w''] by (auto simp: keeps_def)
next
  assume r: "processes w sid = Some r"
  from stop_server_flag_first [OF r]
  show 1: "\<exists>rest. trace (snd (stop_server sid graceful_cmd timeout w)) =
                 trace w @ SetStopRequested r # rest" .
  from stop_server_flag_first [OF r, of "''stop''" 15] restart_server_trace [of sid nm p c e cb w]
  show "\<exists>rest. trace (snd (restart_server sid nm p c e cb w)) =
                 trace w @ SetStopRequested r # rest"
    by (metis append.assoc append_Cons append_Nil)
  show 2: "stop_requested (heap (snd (stop_server sid graceful_cmd timeout w)) r)"
    using stop_server_sets_flag [OF r prod.collapse [symmetric]] .
  {
    assume b: "r < next_ref w \<and> runs ys (snd (stop_server sid graceful_cmd timeout w)) = Some v"
    have "next_ref (snd (stop_server sid graceful_cmd timeout w)) = next_ref w"
      using frame_stop_server [OF prod.collapse [symmetric]] by (simp add: frame_def)
    with b 2 runs_keeps [of ys "snd (stop_server sid graceful_cmd timeout w)" v]
    show "stop_requested (heap v r)" by (auto simp: keeps_def)
  }
qed


lemma start_b:
  "start_server ''b'' ''B'' (Path ''srv'' ''run.sh'') None None None world_script = (res, w') \<Longrightarrow>
     res = Inr () \<and> next_ref w' = 2 \<and> processes w' ''b'' = Some 1 \<and> processes w' ''a'' = Some 0 \<and>
     \<not> stop_requested (heap w' 1) \<and> stdout_lines (heap w' 1) = [] \<and>
     trace w' = [Spawn 1 [Lit ''/bin/sh'', PathArg (Path ''srv'' ''run.sh'')] False
                   (ParentOf (Path ''srv'' ''run.sh'')) Map.empty,
                 StartThread (Watcher ''b''), Log INFO ''Started server %s (%s)'']"
proof -
  have lin: "\<not> startswith (lower ''Linux'') ''win''" by code_simp
  show "start_server ''b'' ''B'' (Path ''srv'' ''run.sh'') None None None world_script = (res, w') \<Longrightarrow>
     ?thesis"
    by (auto simp: start_server_def world_script_def world1_def world0_def child0_def
        resolve_script_def lin Let_def emit_def log_def)
qed

text \<open>
  Starting \<open>b\<close> creates handle 1 with a false flag; stopping \<open>a\<close> sets the flag of handle
  0 first, and it is still set after a start of \<open>b\<close> and a status query.
\<close>

theorem stop_requested_set_once_and_first_witness:
  "next_ref (snd (start_server ''b'' ''B'' (Path ''srv'' ''run.sh'') None None None world_script))
     \<noteq> next_ref world_script \<and>
   processes (snd (start_server ''b'' ''B'' (Path ''srv'' ''run.sh'') None None None world_script)) ''b''
     = Some 1 \<and>
   \<not> stop_requested
       (heap (snd (start_server ''b'' ''B'' (Path ''srv'' ''run.sh'') None None None world_script)) 1) \<and>
   processes world1 ''a'' = Some 0 \<and> 0 < next_ref world1 \<and>
   (\<exists>rest. trace (snd (stop_server ''a'' ''stop'' 0 world1)) = SetStopRequested 0 # rest) \<and>
   (\<exists>rest. trace (snd (restart_server ''a'' ''B'' (Path ''srv'' ''run.sh'') None None None world1))
      = SetStopRequested 0 # rest) \<and>
   stop_requested (heap (snd (stop_server ''a'' ''stop'' 0 world1)) 0) \<and>
   stop_requested
     (heap (snd (is_running ''a''
              (snd (start_server ''b'' ''B'' (Path ''srv'' ''run.sh'') None None None
                 (snd (stop_server ''a'' ''stop'' 0 world1)))))) 0)"
proof -
  have a: "processes world1 ''a'' = Some 0" "next_ref world1 = 1" "trace world1 = []"
    "next_ref world_script = 1"
    by (simp_all add: world1_def world_script_def world0_def)
  let ?st = "start_server ''b'' ''B'' (Path ''srv'' ''run.sh'') None None None world_script"
  note sb = start_b [OF prod.collapse [symmetric]]
  have 1: "processes (snd ?st) ''b'' = Some (next_ref world_script) \<and>
           \<not> stop_requested (heap (snd ?st) (next_ref world_script))"
    using stop_requested_set_once_and_first
      [where sid = "''b''" and nm = "''B''" and p = "Path ''srv'' ''run.sh''" and c = None
         and e = None and cb = None and w = world_script and res = "fst ?st" and w' = "snd ?st",
       THEN conjunct1]
      sb a
    by simp
  have 2: "(\<exists>rest. trace (snd (stop_server ''a'' ''stop'' 0 world1)) = trace world1 @ SetStopRequested 0 # rest) \<and>
      (\<exists>rest. trace (snd (restart_server ''a'' ''B'' (Path ''srv'' ''run.sh'') None None None world1)) =
                 trace world1 @ SetStopRequested 0 # rest) \<and>
      stop_requested (heap (snd (stop_server ''a'' ''stop'' 0 world1)) 0) \<and>
      stop_requested (heap (snd (is_running ''a''
              (snd (start_server ''b'' ''B'' (Path ''srv'' ''run.sh'') None None None
                 (snd (stop_server ''a'' ''stop'' 0 world1)))))) 0)"
    using stop_requested_set_once_and_first
      [where sid = "''a''" and nm = "''B''" and p = "Path ''srv'' ''run.sh''" and c = None
         and e = None and cb = None and w = world1 and r = 0 and graceful_cmd = "''stop''"
         and timeout = 0
         and ys = "[Start ''b'' ''B'' (Path ''srv'' ''run.sh'') None None None, IsRunning ''a'']"
         and v = "snd (is_running ''a''
              (snd (start_server ''b'' ''B'' (Path ''srv'' ''run.sh'') None None None
                 (snd (stop_server ''a'' ''stop'' 0 world1)))))",
       THEN conjunct2, THEN conjunct2]
      a
    by simp
  from 1 2 sb a show ?thesis by simp
qed

section \<open>The console and the registry\<close>







end
